theory Spec2Isabelle
  imports Main "HOL-Library.AList" "HOL-Library.Sublist"
begin

section \<open>Data model of apt-rip\<close>

text \<open>
  A path is the list of its components: \<^verbatim>\<open>usr/bin/foo\<close> is
  \<open>[''usr'', ''bin'', ''foo'']\<close>.  \<^verbatim>\<open>os.path.join(root, rel)\<close> of a relative
  \<^verbatim>\<open>rel\<close> is \<open>root @ rel\<close>, \<^verbatim>\<open>os.path.dirname\<close> is \<open>butlast\<close>, and the
  empty list is the topmost directory of the tree.
\<close>

type_synonym path = "string list"

datatype node = File | Dir

text \<open>
  A directory tree, as the \<^verbatim>\<open>os\<close> calls of the program see it: the paths
  that exist, each a regular file or a directory.  A Python \<^verbatim>\<open>dict\<close> is an
  association list in insertion order, read through \<open>map_of\<close>.
\<close>

type_synonym fs = "(path \<times> node) list"

text \<open>
  The value of the \<^verbatim>\<open>'explicit'\<close> key: \<^verbatim>\<open>Installer.install\<close> stores the
  boolean it was called with, the \<^verbatim>\<open>--system\<close> branch of \<^verbatim>\<open>cmd_install\<close>
  stores the string \<^verbatim>\<open>'True'\<close>.
\<close>

datatype pyval = PyBool bool | PyStr string

text \<open>Python truthiness, as \<^verbatim>\<open>not installed[dep]['explicit']\<close> reads the value.\<close>

fun truthy :: "pyval \<Rightarrow> bool" where
  "truthy (PyBool b) = b"
| "truthy (PyStr s) = (s \<noteq> [])"

text \<open>An entry of the package index (\<^verbatim>\<open>read_package_index\<close>); every key is optional.\<close>

record index_entry =
  ie_version :: "string option"
  ie_filename :: "string option"
  ie_depends :: "string list option"

type_synonym package_index = "(string \<times> index_entry) list"

text \<open>The \<^verbatim>\<open>install_info\<close> dictionary of \<^verbatim>\<open>Installer.install\<close>.\<close>

record install_info =
  info_dist :: string
  info_repo :: string
  info_explicit :: pyval
  info_files :: "path list"
  info_depends :: "string list"

type_synonym installation_state = "(string \<times> install_info) list"

record config =
  mirror :: string
  install_root :: path

record arguments =
  arg_dist :: string
  arg_repo :: string
  arg_system :: bool
  arg_packages :: "string list"

text \<open>
  The exceptions of the program.  The source raises plain \<^verbatim>\<open>Exception\<close> objects with
  a message; they are named here after the failure they report.
  \<^item> \<open>KeyError k\<close>: a dictionary has no key \<open>k\<close>;
  \<^item> \<open>OSError p\<close>: a file system call failed at \<open>p\<close>;
  \<^item> \<open>ShutilError p\<close>: \<^verbatim>\<open>shutil.move\<close> found its destination inside the directory \<open>p\<close>;
  \<^item> \<open>FetchError u\<close>: the download of \<open>u\<close> or the extraction of what it delivered failed;
  \<^item> \<open>ConflictError p pkg\<close>: \<^verbatim>\<open>File "p" of package "pkg" conflicts with existing file\<close>;
  \<^item> \<open>BlockedByDependentsError pkg n\<close>: \<^verbatim>\<open>Package "pkg" is required by n other packages\<close>;
  \<^item> \<open>NotInstalledError pkg\<close>: \<^verbatim>\<open>Package "pkg" is not installed\<close>.
\<close>

datatype py_error =
    KeyError string
  | OSError path
  | ShutilError path
  | FetchError string
  | ConflictError path string
  | BlockedByDependentsError string nat
  | NotInstalledError string

text \<open>
  The lines the program prints.
  \<^item> \<open>AlreadyInstalled pkg\<close>: \<^verbatim>\<open>Package "pkg" is already installed\<close>;
  \<^item> \<open>MissingFileWarning p pkg\<close>: \<^verbatim>\<open>Warning: File "p" of package "pkg" appears to be missing\<close>;
  \<^item> \<open>AmbiguousName q n\<close>: \<^verbatim>\<open>Error: Abiguous package name "q" (found n canidates)\<close>;
  \<^item> \<open>NoMatch q\<close>: \<^verbatim>\<open>Error: Failed to find a package matching "q"\<close>.
\<close>

datatype msg =
    AlreadyInstalled string
  | MissingFileWarning path string
  | AmbiguousName string nat
  | NoMatch string

text \<open>
  What lies outside the process: \<open>feed url\<close> is the index that downloading,
  decompressing and parsing \<^verbatim>\<open>Packages.gz\<close> yields (or the exception of one of these
  steps), \<open>archive url\<close> the files that \<^verbatim>\<open>os.walk(self.extract_dir)\<close> lists after the
  package at \<open>url\<close> was downloaded and unpacked with \<^verbatim>\<open>ar\<close> and \<^verbatim>\<open>tar\<close>, as paths
  relative to the extraction directory (or the exception of one of these steps).
\<close>

record env =
  feed :: "string \<Rightarrow> py_error + package_index"
  archive :: "string \<Rightarrow> py_error + path list"

text \<open>
  The state a command runs in.
  \<^item> \<open>disk\<close>: the file system;
  \<^item> \<open>net\<close>: the URLs handed to \<^verbatim>\<open>urllib.request.urlopen\<close> so far;
  \<^item> \<open>out\<close>: the lines printed so far;
  \<^item> \<open>persisted\<close>: what \<^verbatim>\<open>installed_packages.json\<close> holds, when the file exists;
  \<^item> \<open>cached\<close>: what the index cache file at a path holds, when the file exists;
  \<^item> \<open>installed\<close>: the dictionary \<^verbatim>\<open>installed\<close> of the running command;
  \<^item> \<open>new_installed\<close>: \<^verbatim>\<open>Installer.new_installed\<close>;
  \<^item> \<open>install_dir\<close>: the tree under \<^verbatim>\<open>Installer.install_dir\<close>, a directory of the
    command's own \<^verbatim>\<open>tempfile.TemporaryDirectory\<close>, kept apart from \<open>disk\<close>; its paths
    are relative to that directory, which exists once \<open>[]\<close> is a node.
\<close>

record state =
  disk :: fs
  net :: "string list"
  out :: "msg list"
  persisted :: installation_state
  cached :: "path \<Rightarrow> package_index"
  installed :: installation_state
  new_installed :: installation_state
  install_dir :: fs

text \<open>A call returns, or raises with the state as it is at that moment.\<close>

datatype 'a outcome = Returned 'a | Raised py_error state

section \<open>File system calls\<close>

definition path_exists :: "fs \<Rightarrow> path \<Rightarrow> bool" where
  "path_exists d p = (map_of d p \<noteq> None)"

text \<open>
  \<^verbatim>\<open>os.mkdir\<close>: the path must not exist and its parent must be a directory.  The
  topmost directory \<open>[]\<close> has its parent outside the tree, where it is taken to exist.
\<close>

definition mkdir :: "fs \<Rightarrow> path \<Rightarrow> py_error + fs" where
  "mkdir d p =
     (if path_exists d p then Inl (OSError p)
      else if p = [] \<or> map_of d (butlast p) = Some Dir then Inr (AList.update p Dir d)
      else Inl (OSError p))"

text \<open>\<^verbatim>\<open>os.makedirs\<close>: the missing ancestors first, then the leaf.\<close>

function makedirs :: "fs \<Rightarrow> path \<Rightarrow> py_error + fs" where
  "makedirs d p =
     (if p \<noteq> [] \<and> \<not> path_exists d (butlast p) then
        (case makedirs d (butlast p) of
           Inl e \<Rightarrow> Inl e
         | Inr d' \<Rightarrow> mkdir d' p)
      else mkdir d p)"
  by pat_completeness auto
termination
  by (relation "measure (\<lambda>(d, p). length p)") auto

declare makedirs.simps [simp del]

text \<open>
  The destination side of \<^verbatim>\<open>shutil.move(src, dst)\<close> for a regular file \<^verbatim>\<open>src\<close>
  whose last component is the last component of \<^verbatim>\<open>dst\<close>, as in both calls of the
  program: into an existing directory the file goes under its own name (an error if
  that exists); otherwise it is renamed to \<^verbatim>\<open>dst\<close>, replacing a file there, and the
  parent of \<^verbatim>\<open>dst\<close> must be a directory.
\<close>

definition shutil_move :: "fs \<Rightarrow> path \<Rightarrow> py_error + fs" where
  "shutil_move d dst =
     (if dst = [] then Inl (OSError dst)
      else if map_of d dst = Some Dir then
        (if path_exists d (dst @ [last dst]) then Inl (ShutilError dst)
         else Inr (AList.update (dst @ [last dst]) File d))
      else if map_of d (butlast dst) = Some Dir then Inr (AList.update dst File d)
      else Inl (OSError dst))"

text \<open>\<^verbatim>\<open>move_file(src, dst)\<close>, on the tree that holds \<^verbatim>\<open>dst\<close>.\<close>

definition move_file :: "fs \<Rightarrow> path \<Rightarrow> py_error + fs" where
  "move_file d dst =
     (if \<not> path_exists d (butlast dst) then
        (case makedirs d (butlast dst) of
           Inl e \<Rightarrow> Inl e
         | Inr d' \<Rightarrow> shutil_move d' dst)
      else shutil_move d dst)"

text \<open>
  \<^verbatim>\<open>write_file(path, data)\<close>: \<^verbatim>\<open>open(path, 'wb')\<close> creates the file or truncates
  it; it fails on a directory and under a parent that is no directory.
\<close>

definition write_file :: "fs \<Rightarrow> path \<Rightarrow> py_error + fs" where
  "write_file d p =
     (case (if \<not> path_exists d (butlast p) then makedirs d (butlast p) else Inr d) of
        Inl e \<Rightarrow> Inl e
      | Inr d' \<Rightarrow>
          (if p \<noteq> [] \<and> map_of d' p \<noteq> Some Dir \<and> map_of d' (butlast p) = Some Dir
           then Inr (AList.update p File d')
           else Inl (OSError p)))"

text \<open>\<^verbatim>\<open>os.remove\<close>: removes a regular file, fails on anything else.\<close>

definition os_remove :: "fs \<Rightarrow> path \<Rightarrow> py_error + fs" where
  "os_remove d p =
     (if map_of d p = Some File then Inr (AList.delete p d) else Inl (OSError p))"

text \<open>
  \<^verbatim>\<open>os.rmdir\<close>: removes a directory that has no entry.  The topmost directory
  is never removed (the operating system refuses).
\<close>

definition rmdir :: "fs \<Rightarrow> path \<Rightarrow> py_error + fs" where
  "rmdir d p =
     (if p \<noteq> [] \<and> map_of d p = Some Dir \<and> list_all (\<lambda>q. q = [] \<or> butlast q \<noteq> p) (map fst d)
      then Inr (AList.delete p d)
      else Inl (OSError p))"

text \<open>
  The loop of \<^verbatim>\<open>os.removedirs\<close> after its first \<^verbatim>\<open>rmdir\<close>: the parents, one after
  the other, until one cannot be removed; that error is swallowed.
\<close>

function prune_parents :: "fs \<Rightarrow> path \<Rightarrow> fs" where
  "prune_parents d p =
     (if p = [] then d
      else (case rmdir d (butlast p) of
              Inl e \<Rightarrow> d
            | Inr d' \<Rightarrow> prune_parents d' (butlast p)))"
  by pat_completeness auto
termination
  by (relation "measure (\<lambda>(d, p). length p)") auto

declare prune_parents.simps [simp del]

definition removedirs :: "fs \<Rightarrow> path \<Rightarrow> py_error + fs" where
  "removedirs d p =
     (case rmdir d p of
        Inl e \<Rightarrow> Inl e
      | Inr d' \<Rightarrow> Inr (prune_parents d' p))"


section \<open>The package index\<close>

text \<open>\<^verbatim>\<open>find_packages\<close>: the names of the index that contain the query, in index order.\<close>

definition find_packages :: "package_index \<Rightarrow> string \<Rightarrow> string list" where
  "find_packages index query = filter (\<lambda>name. sublist query name) (map fst index)"

text \<open>
  The body of the resolution loop of \<^verbatim>\<open>cmd_install\<close> for one requested name:
  the name to append to \<^verbatim>\<open>packages\<close>, or the line printed before the command returns.
\<close>

definition resolve :: "package_index \<Rightarrow> string \<Rightarrow> msg + string" where
  "resolve index package =
     (let results = find_packages index package in
      if package \<in> set results then Inr package
      else if length results > 1 then Inl (AmbiguousName package (length results))
      else if length results = 0 then Inl (NoMatch package)
      else Inr (hd results))"

fun resolve_all :: "package_index \<Rightarrow> string list \<Rightarrow> string list \<Rightarrow> msg + string list" where
  "resolve_all index [] packages = Inr packages"
| "resolve_all index (package # rest) packages =
     (case resolve index package of
        Inl m \<Rightarrow> Inl m
      | Inr name \<Rightarrow> resolve_all index rest (packages @ [name]))"

section \<open>The installer\<close>

text \<open>What \<^verbatim>\<open>Installer.__init__\<close> stores and \<^verbatim>\<open>install\<close> only reads.\<close>

record installer =
  ins_env :: env
  ins_args :: arguments
  ins_config :: config
  ins_index :: package_index
  ins_tmp :: path

definition has_key :: "('k \<times> 'v) list \<Rightarrow> 'k \<Rightarrow> bool" where
  "has_key d k = (map_of d k \<noteq> None)"

text \<open>\<^verbatim>\<open>dep.split(' ')[0]\<close>: the dependency without its version constraint.\<close>

definition dep_name :: "string \<Rightarrow> string" where
  "dep_name dep = takeWhile (\<lambda>ch. ch \<noteq> CHR '' '') dep"

text \<open>
  Lines 61 to 72 of \<^verbatim>\<open>Installer.install\<close>: the URL from the index entry, the
  download and the extraction; the result is what \<^verbatim>\<open>os.walk\<close> will list.
\<close>

definition fetch_package :: "installer \<Rightarrow> string \<Rightarrow> state \<Rightarrow> (path list \<times> state) outcome" where
  "fetch_package c package s =
     (case map_of (ins_index c) package of
        None \<Rightarrow> Raised (KeyError package) s
      | Some entry \<Rightarrow>
          (case ie_filename entry of
             None \<Rightarrow> Raised (KeyError ''filename'') s
           | Some fname \<Rightarrow>
               (let dl_url = mirror (ins_config c) @ ''/'' @ fname;
                    s1 = s\<lparr>net := net s @ [dl_url]\<rparr>
                in case archive (ins_env c) dl_url of
                     Inl e \<Rightarrow> Raised e s1
                   | Inr walk \<Rightarrow> Returned (walk, s1))))"

text \<open>
  The loop of lines 74 to 93 over the extracted files: the conflict check against
  the install root and against the files staged so far, then the move into the
  staging tree.
\<close>

fun stage_files ::
  "installer \<Rightarrow> string \<Rightarrow> path list \<Rightarrow> path list \<Rightarrow> state \<Rightarrow> (path list \<times> state) outcome"
where
  "stage_files c package [] package_files s = Returned (package_files, s)"
| "stage_files c package (rel_path # rest) package_files s =
     (let root_path = install_root (ins_config c) @ rel_path;
          install_path = ins_tmp c @ [''install''] @ rel_path
      in if path_exists (disk s) root_path then Raised (ConflictError root_path package) s
         else if path_exists (install_dir s) rel_path then Raised (ConflictError install_path package) s
         else (case move_file (install_dir s) rel_path of
                 Inl e \<Rightarrow> Raised e s
               | Inr t \<Rightarrow> stage_files c package rest (package_files @ [rel_path]) (s\<lparr>install_dir := t\<rparr>)))"

text \<open>
  Lines 61 to 105: everything \<^verbatim>\<open>install\<close> does for a package that is not installed
  yet, up to its entry in \<^verbatim>\<open>new_installed\<close>; the result is \<^verbatim>\<open>dependencies\<close>.
\<close>

definition stage_package ::
  "installer \<Rightarrow> string \<Rightarrow> bool \<Rightarrow> state \<Rightarrow> (string list \<times> state) outcome"
where
  "stage_package c package explicit s =
     (case fetch_package c package s of
        Raised e s' \<Rightarrow> Raised e s'
      | Returned (walk, s1) \<Rightarrow>
          (case stage_files c package walk [] s1 of
             Raised e s' \<Rightarrow> Raised e s'
           | Returned (package_files, s2) \<Rightarrow>
               (case map_of (ins_index c) package of
                  None \<Rightarrow> Raised (KeyError package) s2
                | Some entry \<Rightarrow>
                    (let dependencies = (case ie_depends entry of Some ds \<Rightarrow> ds | None \<Rightarrow> []);
                         install_info = \<lparr>info_dist = arg_dist (ins_args c),
                                         info_repo = arg_repo (ins_args c),
                                         info_explicit = PyBool explicit,
                                         info_files = package_files,
                                         info_depends = map dep_name dependencies\<rparr>
                     in Returned (dependencies,
                          s2\<lparr>new_installed := AList.update package install_info (new_installed s2)\<rparr>)))))"

text \<open>\<^verbatim>\<open>Installer.install\<close>, and its last loop over the dependencies.\<close>

function install :: "installer \<Rightarrow> string \<Rightarrow> bool \<Rightarrow> state \<Rightarrow> state outcome"
  and install_deps :: "installer \<Rightarrow> string list \<Rightarrow> state \<Rightarrow> state outcome"
where
  "install c package explicit s =
     (if has_key (installed s) package \<or> has_key (new_installed s) package then
        Returned (if explicit then s\<lparr>out := out s @ [AlreadyInstalled package]\<rparr> else s)
      else (case stage_package c package explicit s of
              Raised e s' \<Rightarrow> Raised e s'
            | Returned (dependencies, s') \<Rightarrow> install_deps c dependencies s'))"
| "install_deps c [] s = Returned s"
| "install_deps c (dep # rest) s =
     (case install c (dep_name dep) False s of
        Raised e s' \<Rightarrow> Raised e s'
      | Returned s' \<Rightarrow> install_deps c rest s')"
  by pat_completeness auto


text \<open>
  \<^verbatim>\<open>install\<close> returns on every input: a package is entered into
  \<^verbatim>\<open>new_installed\<close> before its dependencies are visited, and only a package of the
  index gets that far, so the packages of the index that are not yet in
  \<^verbatim>\<open>new_installed\<close> become fewer.
\<close>

definition todo :: "installer \<Rightarrow> state \<Rightarrow> nat" where
  "todo c s = card (fst ` set (ins_index c) - fst ` set (new_installed s))"

lemma fetch_package_frame:
  "fetch_package c p s = Returned (walk, s1) \<Longrightarrow>
     has_key (ins_index c) p \<and> new_installed s1 = new_installed s \<and> installed s1 = installed s
     \<and> disk s1 = disk s \<and> persisted s1 = persisted s \<and> install_dir s1 = install_dir s
     \<and> out s1 = out s \<and> cached s1 = cached s"
  by (auto simp: fetch_package_def has_key_def Let_def split: option.splits sum.splits)

lemma stage_files_frame:
  "stage_files c p walk pf s = Returned (pf', s') \<Longrightarrow>
     new_installed s' = new_installed s \<and> installed s' = installed s
     \<and> disk s' = disk s \<and> persisted s' = persisted s \<and> net s' = net s \<and> out s' = out s
     \<and> cached s' = cached s"
  by (induction c p walk pf s rule: stage_files.induct)
     (auto simp: Let_def split: if_splits sum.splits)

lemma stage_package_new:
  assumes "stage_package c p e s = Returned (deps, s')"
  shows "has_key (ins_index c) p"
    and "\<exists>info. new_installed s' = AList.update p info (new_installed s)"
  using assms
  by (auto simp: stage_package_def Let_def split: outcome.splits prod.splits option.splits
           dest!: fetch_package_frame stage_files_frame)

lemma todo_mono:
  "fst ` set (new_installed s) \<subseteq> fst ` set (new_installed s') \<Longrightarrow> todo c s' \<le> todo c s"
  unfolding todo_def by (intro card_mono) auto

lemma todo_less:
  assumes "has_key (ins_index c) p" "\<not> has_key (new_installed s) p"
    "new_installed s' = AList.update p info (new_installed s)"
  shows "todo c s' < todo c s"
proof -
  have k: "p \<in> fst ` set (ins_index c)" "p \<notin> fst ` set (new_installed s)"
    using assms(1,2) by (auto simp: has_key_def map_of_eq_None_iff)
  have "fst ` set (new_installed s') = insert p (fst ` set (new_installed s))"
    using assms(3) by (simp add: AList.dom_update)
  then have "fst ` set (ins_index c) - fst ` set (new_installed s')
      \<subset> fst ` set (ins_index c) - fst ` set (new_installed s)"
    using k by auto
  then show ?thesis unfolding todo_def by (intro psubset_card_mono) auto
qed

lemma install_keys_mono:
  "install_install_deps_dom (Inl (c, p, e, s)) \<Longrightarrow> install c p e s = Returned s' \<Longrightarrow>
     fst ` set (new_installed s) \<subseteq> fst ` set (new_installed s')"
  "install_install_deps_dom (Inr (c, ds, s)) \<Longrightarrow> install_deps c ds s = Returned s' \<Longrightarrow>
     fst ` set (new_installed s) \<subseteq> fst ` set (new_installed s')"
proof (induction c p e s and c ds s arbitrary: s' and s' rule: install_install_deps.pinduct)
  case (1 c package explicit s)
  show ?case
  proof (cases "has_key (installed s) package \<or> has_key (new_installed s) package")
    case True
    with 1 show ?thesis by (auto simp: install.psimps split: if_splits)
  next
    case False
    with 1(1,3) obtain deps s1 where sp: "stage_package c package explicit s = Returned (deps, s1)"
      and r: "install_deps c deps s1 = Returned s'"
      by (auto simp: install.psimps split: outcome.splits)
    from stage_package_new(2)[OF sp] obtain info where
      "new_installed s1 = AList.update package info (new_installed s)" by blast
    then have "fst ` set (new_installed s1) = {package} \<union> fst ` set (new_installed s)"
      by (simp only: AList.dom_update)
    then have "fst ` set (new_installed s) \<subseteq> fst ` set (new_installed s1)"
      by blast
    moreover have "fst ` set (new_installed s1) \<subseteq> fst ` set (new_installed s')"
      using 1(2) False sp r by auto
    ultimately show ?thesis by blast
  qed
next
  case (2 c s)
  then show ?case by (simp add: install_deps.psimps)
next
  case (3 c dep rest s)
  from 3(1,4) obtain s1 where a: "install c (dep_name dep) False s = Returned s1"
    and b: "install_deps c rest s1 = Returned s'"
    by (auto simp: install_deps.psimps split: outcome.splits)
  from 3(2)[OF a] 3(3)[OF a b] show ?case by blast
qed

lemma install_dom_total: "All install_install_deps_dom"
proof (relation "inv_image (less_than <*lex*> less_than)
      (\<lambda>x. case x of Inl (c, p, e, s) \<Rightarrow> (todo c s, 0)
                   | Inr (c, ds, s) \<Rightarrow> (todo c s, Suc (length ds)))", goal_cases)
  case 1
  show ?case by (intro wf_inv_image wf_lex_prod wf_less_than)
next
  case (2 c package explicit s x dependencies s')
  then show ?case
    using todo_less[of c package s s'] stage_package_new[of c package explicit s dependencies s']
    by auto
next
  case (3 c dep rest s)
  show ?case by simp
next
  case (4 c dep rest s s')
  then show ?case
    using todo_mono[OF install_keys_mono(1), of c "dep_name dep" False s s' c]
    by (auto simp: le_less)
qed

termination install
  by (rule install_dom_total)

declare install.simps [simp del]

section \<open>The remover\<close>

definition direct_reverse_dependencies :: "installation_state \<Rightarrow> string \<Rightarrow> string list" where
  "direct_reverse_dependencies inst package =
     map fst (filter (\<lambda>(rdep, info). package \<in> set (info_depends info)) inst)"

text \<open>
  The loop of lines 222 to 233 over the recorded files: a missing file is a warning,
  a present one is removed (an error of \<^verbatim>\<open>os.remove\<close> is not caught), and whatever
  \<^verbatim>\<open>os.removedirs\<close> raises on the parent directory is swallowed.
\<close>

fun remove_files :: "config \<Rightarrow> string \<Rightarrow> path list \<Rightarrow> state \<Rightarrow> state outcome" where
  "remove_files cfg package [] s = Returned s"
| "remove_files cfg package (file # rest) s =
     (let path = install_root cfg @ file in
      case (if \<not> path_exists (disk s) path
            then Inr (s\<lparr>out := out s @ [MissingFileWarning path package]\<rparr>)
            else (case os_remove (disk s) path of
                    Inl e \<Rightarrow> Inl e
                  | Inr d \<Rightarrow> Inr (s\<lparr>disk := d\<rparr>))) of
        Inl e \<Rightarrow> Raised e s
      | Inr s1 \<Rightarrow>
          remove_files cfg package rest
            (s1\<lparr>disk := (case removedirs (disk s1) (butlast path) of
                            Inl e \<Rightarrow> disk s1
                          | Inr d \<Rightarrow> d)\<rparr>))"

text \<open>
  \<^verbatim>\<open>remove\<close>, and its last loop over the recorded dependencies.  The dictionary
  \<^verbatim>\<open>installed\<close> is the field of that name of the state.
\<close>

function remove :: "config \<Rightarrow> string \<Rightarrow> bool \<Rightarrow> state \<Rightarrow> state outcome"
  and remove_deps :: "config \<Rightarrow> string list \<Rightarrow> state \<Rightarrow> state outcome"
where
  "remove cfg package quiet s =
     (case map_of (installed s) package of
        None \<Rightarrow> Returned s
      | Some info \<Rightarrow>
          (let rdeps = direct_reverse_dependencies (installed s) package in
           if rdeps \<noteq> [] then
             (if quiet then Returned s
              else Raised (BlockedByDependentsError package (length rdeps)) s)
           else (case remove_files cfg package (info_files info) s of
                   Raised e s' \<Rightarrow> Raised e s'
                 | Returned s1 \<Rightarrow>
                     remove_deps cfg (info_depends info)
                       (s1\<lparr>installed := AList.delete package (installed s1)\<rparr>))))"
| "remove_deps cfg [] s = Returned s"
| "remove_deps cfg (dep # rest) s =
     (case map_of (installed s) dep of
        None \<Rightarrow> remove_deps cfg rest s
      | Some info \<Rightarrow>
          (if \<not> truthy (info_explicit info) then
             (case remove cfg dep True s of
                Raised e s' \<Rightarrow> Raised e s'
              | Returned s' \<Rightarrow> remove_deps cfg rest s')
           else remove_deps cfg rest s))"
  by pat_completeness auto

lemma remove_files_frame:
  "remove_files cfg p fs s = Returned s' \<Longrightarrow>
     installed s' = installed s \<and> persisted s' = persisted s \<and> net s' = net s
     \<and> cached s' = cached s \<and> new_installed s' = new_installed s \<and> install_dir s' = install_dir s"
  by (induction cfg p fs s rule: remove_files.induct)
     (auto simp: Let_def split: if_splits sum.splits)

lemma length_delete_less:
  "map_of al k = Some v \<Longrightarrow> length (AList.delete k al) < length al"
  by (induction al) (auto simp: AList.delete_simps le_imp_less_Suc AList.length_delete_le split: if_splits)

lemma remove_length_mono:
  "remove_remove_deps_dom (Inl (cfg, p, q, s)) \<Longrightarrow> remove cfg p q s = Returned s' \<Longrightarrow>
     length (installed s') \<le> length (installed s)"
  "remove_remove_deps_dom (Inr (cfg, ds, s)) \<Longrightarrow> remove_deps cfg ds s = Returned s' \<Longrightarrow>
     length (installed s') \<le> length (installed s)"
proof (induction cfg p q s and cfg ds s arbitrary: s' and s' rule: remove_remove_deps.pinduct)
  case (1 cfg package quiet s)
  show ?case
  proof (cases "map_of (installed s) package")
    case None
    with 1 show ?thesis by (simp add: remove.psimps)
  next
    case (Some info)
    show ?thesis
    proof (cases "direct_reverse_dependencies (installed s) package = []")
      case False
      with 1(1,3) Some show ?thesis by (auto simp: remove.psimps Let_def split: if_splits)
    next
      case True
      with 1(1,3) Some obtain s1 where rf: "remove_files cfg package (info_files info) s = Returned s1"
        and r: "remove_deps cfg (info_depends info)
                  (s1\<lparr>installed := AList.delete package (installed s1)\<rparr>) = Returned s'"
        by (auto simp: remove.psimps Let_def split: outcome.splits)
      have "length (installed s') \<le> length (AList.delete package (installed s1))"
        using 1(2) Some True rf r by auto
      also have "\<dots> \<le> length (installed s)"
        using remove_files_frame[OF rf] by (simp add: AList.length_delete_le)
      finally show ?thesis .
    qed
  qed
next
  case (2 cfg s)
  then show ?case by (simp add: remove_deps.psimps)
next
  case (3 cfg dep rest s)
  show ?case
  proof (cases "map_of (installed s) dep")
    case None
    with 3 show ?thesis by (simp add: remove_deps.psimps)
  next
    case (Some info)
    show ?thesis
    proof (cases "truthy (info_explicit info)")
      case True
      with 3 Some show ?thesis by (simp add: remove_deps.psimps)
    next
      case False
      with 3(1,6) Some obtain s1 where a: "remove cfg dep True s = Returned s1"
        and b: "remove_deps cfg rest s1 = Returned s'"
        by (auto simp: remove_deps.psimps split: outcome.splits)
      have "length (installed s1) \<le> length (installed s)"
        using 3(3) Some False a by auto
      moreover have "length (installed s') \<le> length (installed s1)"
        using 3(4) Some False a b by auto
      ultimately show ?thesis by simp
    qed
  qed
qed

lemma remove_dom_total: "All remove_remove_deps_dom"
proof (relation "inv_image (less_than <*lex*> less_than)
      (\<lambda>x. case x of Inl (cfg, p, q, s) \<Rightarrow> (length (installed s), 0)
                   | Inr (cfg, ds, s) \<Rightarrow> (length (installed s), Suc (length ds)))", goal_cases)
  case 1
  show ?case by (intro wf_inv_image wf_lex_prod wf_less_than)
next
  case (2 cfg package quiet s info rdeps s1)
  then show ?case
    using remove_files_frame[of cfg package "info_files info" s s1]
      length_delete_less[of "installed s" package info]
    by auto
next
  case (3 cfg dep rest s)
  then show ?case by simp
next
  case (4 cfg dep rest s info)
  then show ?case by simp
next
  case (5 cfg dep rest s info s')
  then show ?case
    using remove_length_mono(1)[of cfg dep True s s']
    by (auto simp: le_less)
next
  case (6 cfg dep rest s info)
  then show ?case by simp
qed

termination remove
  by (rule remove_dom_total)

declare remove.simps [simp del]


section \<open>The commands\<close>

text \<open>\<^verbatim>\<open>APT_RIP_ROOT\<close> is \<^verbatim>\<open>etc/apt-rip\<close>.\<close>

definition state_path :: "config \<Rightarrow> path" where
  "state_path cfg = install_root cfg @ [''etc'', ''apt-rip'', ''installed_packages.json'']"

definition index_path :: "config \<Rightarrow> string \<Rightarrow> string \<Rightarrow> path" where
  "index_path cfg dist repo =
     install_root cfg @ [''etc'', ''apt-rip'', ''package-indices'', dist @ ''-'' @ repo @ ''.json'']"

text \<open>\<^verbatim>\<open>read_installed\<close>: the empty dictionary when the file does not exist.\<close>

definition read_installed :: "config \<Rightarrow> state \<Rightarrow> py_error + installation_state" where
  "read_installed cfg s =
     (case map_of (disk s) (state_path cfg) of
        None \<Rightarrow> Inr []
      | Some File \<Rightarrow> Inr (persisted s)
      | Some Dir \<Rightarrow> Inl (OSError (state_path cfg)))"

definition write_installed :: "config \<Rightarrow> installation_state \<Rightarrow> state \<Rightarrow> state outcome" where
  "write_installed cfg inst s =
     (case write_file (disk s) (state_path cfg) of
        Inl e \<Rightarrow> Raised e s
      | Inr d \<Rightarrow> Returned (s\<lparr>disk := d, persisted := inst\<rparr>))"

text \<open>
  \<^verbatim>\<open>read_package_index\<close>: the cached index when its file exists; otherwise the feed
  is downloaded and parsed, and the result is written to the cache.
\<close>

definition read_package_index ::
  "env \<Rightarrow> config \<Rightarrow> string \<Rightarrow> string \<Rightarrow> state \<Rightarrow> (package_index \<times> state) outcome"
where
  "read_package_index ev cfg dist repo s =
     (let path = index_path cfg dist repo in
      case map_of (disk s) path of
        Some File \<Rightarrow> Returned (cached s path, s)
      | Some Dir \<Rightarrow> Raised (OSError path) s
      | None \<Rightarrow>
          (let url = mirror cfg @ ''/dists/'' @ dist @ ''/'' @ repo @ ''/binary-amd64/Packages.gz'';
               s1 = s\<lparr>net := net s @ [url]\<rparr>
           in case feed ev url of
                Inl e \<Rightarrow> Raised e s1
              | Inr packages \<Rightarrow>
                  (case write_file (disk s1) path of
                     Inl e \<Rightarrow> Raised e s1
                   | Inr d \<Rightarrow>
                       Returned (packages, s1\<lparr>disk := d, cached := (cached s1)(path := packages)\<rparr>))))"

text \<open>The loop of the \<^verbatim>\<open>--system\<close> branch of \<^verbatim>\<open>cmd_install\<close> (lines 267 to 277).\<close>

definition system_info :: install_info where
  "system_info = \<lparr>info_dist = ''special'', info_repo = ''system'',
                   info_explicit = PyStr ''True'', info_files = [], info_depends = []\<rparr>"

fun mark_system :: "string list \<Rightarrow> state \<Rightarrow> state" where
  "mark_system [] s = s"
| "mark_system (package # rest) s =
     (if has_key (installed s) package
      then mark_system rest (s\<lparr>out := out s @ [AlreadyInstalled package]\<rparr>)
      else mark_system rest (s\<lparr>installed := AList.update package system_info (installed s)\<rparr>))"

text \<open>The loop of lines 300 and 301.\<close>

fun install_all :: "installer \<Rightarrow> string list \<Rightarrow> state \<Rightarrow> state outcome" where
  "install_all c [] s = Returned s"
| "install_all c (package # rest) s =
     (case install c package True s of
        Raised e s' \<Rightarrow> Raised e s'
      | Returned s' \<Rightarrow> install_all c rest s')"

text \<open>
  The files \<^verbatim>\<open>os.walk\<close> lists in a tree.  The order of \<^verbatim>\<open>os.walk\<close> is that of the
  directory listings; the model takes the order in which the files were created.
\<close>

definition walk_files :: "fs \<Rightarrow> path list" where
  "walk_files t = map fst (filter (\<lambda>(p, n). n = File) t)"

text \<open>The loop of lines 303 to 308: every staged file is moved into the install root.\<close>

fun commit_files :: "config \<Rightarrow> path list \<Rightarrow> state \<Rightarrow> state outcome" where
  "commit_files cfg [] s = Returned s"
| "commit_files cfg (rel_path # rest) s =
     (case move_file (disk s) (install_root cfg @ rel_path) of
        Inl e \<Rightarrow> Raised e s
      | Inr d \<Rightarrow> commit_files cfg rest (s\<lparr>disk := d\<rparr>))"

text \<open>\<^verbatim>\<open>dict.update\<close>.\<close>

definition dict_update :: "('k \<times> 'v) list \<Rightarrow> ('k \<times> 'v) list \<Rightarrow> ('k \<times> 'v) list" where
  "dict_update d new = fold (\<lambda>(k, v). AList.update k v) new d"

text \<open>
  Lines 298 to 311, the \<^verbatim>\<open>with tempfile.TemporaryDirectory()\<close> block: a fresh
  staging tree, the installs, the moves into the install root, the merge into
  \<^verbatim>\<open>installed\<close> and the write of the state file.  The temporary directory is deleted
  when the block is left, also by an exception.
\<close>

definition staging :: "installer \<Rightarrow> string list \<Rightarrow> state \<Rightarrow> state outcome" where
  "staging c packages s = install_all c packages (s\<lparr>new_installed := [], install_dir := []\<rparr>)"

definition finalization :: "config \<Rightarrow> state \<Rightarrow> state outcome" where
  "finalization cfg s =
     (case commit_files cfg (walk_files (install_dir s)) s of
        Raised e s' \<Rightarrow> Raised e s'
      | Returned s1 \<Rightarrow>
          (let s2 = s1\<lparr>installed := dict_update (installed s1) (new_installed s1)\<rparr>
           in write_installed cfg (installed s2) s2))"

definition cleanup :: "state outcome \<Rightarrow> state outcome" where
  "cleanup r =
     (case r of
        Raised e s \<Rightarrow> Raised e (s\<lparr>install_dir := []\<rparr>)
      | Returned s \<Rightarrow> Returned (s\<lparr>install_dir := []\<rparr>))"

definition transaction :: "installer \<Rightarrow> string list \<Rightarrow> state \<Rightarrow> state outcome" where
  "transaction c packages s =
     cleanup (case staging c packages s of
                Raised e s' \<Rightarrow> Raised e s'
              | Returned s1 \<Rightarrow> finalization (ins_config c) s1)"

text \<open>
  \<^verbatim>\<open>cmd_install\<close>, from the configuration that \<^verbatim>\<open>read_config\<close> returned; \<open>tmp\<close> is the
  name \<^verbatim>\<open>tempfile\<close> chooses.
\<close>

definition cmd_install :: "env \<Rightarrow> path \<Rightarrow> config \<Rightarrow> arguments \<Rightarrow> state \<Rightarrow> state outcome" where
  "cmd_install ev tmp cfg args s =
     (case read_package_index ev cfg (arg_dist args) (arg_repo args) s of
        Raised e s' \<Rightarrow> Raised e s'
      | Returned (index, s1) \<Rightarrow>
          (case read_installed cfg s1 of
             Inl e \<Rightarrow> Raised e s1
           | Inr inst \<Rightarrow>
               (let s2 = s1\<lparr>installed := inst\<rparr> in
                if arg_system args then
                  (let s3 = mark_system (arg_packages args) s2
                   in write_installed cfg (installed s3) s3)
                else
                  (case resolve_all index (arg_packages args) [] of
                     Inl m \<Rightarrow> Returned (s2\<lparr>out := out s2 @ [m]\<rparr>)
                   | Inr packages \<Rightarrow>
                       transaction \<lparr>ins_env = ev, ins_args = args, ins_config = cfg,
                                    ins_index = index, ins_tmp = tmp\<rparr> packages s2))))"

text \<open>\<^verbatim>\<open>cmd_remove\<close>: the loop of lines 319 to 323, then the write of the state file.\<close>

fun remove_all :: "config \<Rightarrow> string list \<Rightarrow> state \<Rightarrow> state outcome" where
  "remove_all cfg [] s = Returned s"
| "remove_all cfg (package # rest) s =
     (if \<not> has_key (installed s) package then Raised (NotInstalledError package) s
      else (case remove cfg package False s of
              Raised e s' \<Rightarrow> Raised e s'
            | Returned s' \<Rightarrow> remove_all cfg rest s'))"

definition cmd_remove :: "config \<Rightarrow> string list \<Rightarrow> state \<Rightarrow> state outcome" where
  "cmd_remove cfg packages s =
     (case read_installed cfg s of
        Inl e \<Rightarrow> Raised e s
      | Inr inst \<Rightarrow>
          (case remove_all cfg packages (s\<lparr>installed := inst\<rparr>) of
             Raised e s' \<Rightarrow> Raised e s'
           | Returned s' \<Rightarrow> write_installed cfg (installed s') s'))"

section \<open>Name resolution\<close>

text \<open>The index of the examples: \<^verbatim>\<open>vim\<close>, \<^verbatim>\<open>vim-tiny\<close> and \<^verbatim>\<open>nano\<close>.\<close>

definition example_entry :: "string \<Rightarrow> string list option \<Rightarrow> index_entry" where
  "example_entry fname deps = \<lparr>ie_version = None, ie_filename = Some fname, ie_depends = deps\<rparr>"

definition editors :: package_index where
  "editors = [(''vim'', example_entry ''vim.deb'' None),
              (''vim-tiny'', example_entry ''vim-tiny.deb'' None),
              (''nano'', example_entry ''nano.deb'' None)]"

lemma find_packages_exact:
  "package \<in> set (find_packages index package) \<longleftrightarrow> has_key index package"
  by (auto simp: find_packages_def has_key_def map_of_eq_None_iff)

lemma resolve_all_fails:
  "Q \<in> set requested \<Longrightarrow> resolve index Q = Inl m \<Longrightarrow> \<exists>m'. resolve_all index requested acc = Inl m'"
  by (induction requested arbitrary: acc) (auto split: sum.splits)

lemma find_packages_editors:
  "find_packages editors ''an'' = [''nano'']"
  "find_packages editors ''vi'' = [''vim'', ''vim-tiny'']"
  "find_packages editors ''zsh'' = []"
  by (simp_all add: editors_def find_packages_def sublist_code prefix_code)

text \<open>
  C5.  A requested name that is a name of the index resolves to itself, whatever
  other names contain it.  Otherwise a single name that contains it is taken, no such
  name gives the line \<^verbatim>\<open>Failed to find a package\<close>, several give the line
  \<^verbatim>\<open>Abiguous package name\<close> with their number; and one request that does not resolve
  makes the whole resolution loop of \<^verbatim>\<open>cmd_install\<close> end with such a line.
\<close>

theorem name_resolution:
  "(has_key index Q \<longrightarrow> resolve index Q = Inr Q)
   \<and> (\<not> has_key index Q \<and> find_packages index Q = [n] \<longrightarrow> resolve index Q = Inr n)
   \<and> (\<not> has_key index Q \<and> find_packages index Q = [] \<longrightarrow> resolve index Q = Inl (NoMatch Q))
   \<and> (\<not> has_key index Q \<and> length (find_packages index Q) > 1 \<longrightarrow>
        resolve index Q = Inl (AmbiguousName Q (length (find_packages index Q))))
   \<and> (Q \<in> set requested \<and> resolve index Q = Inl m \<longrightarrow>
        (\<exists>m'. resolve_all index requested [] = Inl m'))"
  using resolve_all_fails[of Q requested index m "[]"]
  by (auto simp: resolve_def Let_def find_packages_exact)

theorem name_resolution_witness:
  "resolve editors ''vim'' = Inr ''vim''
   \<and> resolve editors ''an'' = Inr ''nano''
   \<and> resolve editors ''zsh'' = Inl (NoMatch ''zsh'')
   \<and> resolve editors ''vi'' = Inl (AmbiguousName ''vi'' 2)
   \<and> (\<exists>m'. resolve_all editors [''nano'', ''vi'', ''vim''] [] = Inl m')"
proof -
  have a: "has_key editors ''vim''" and b: "\<not> has_key editors ''an''"
    and c: "\<not> has_key editors ''zsh''" and d: "\<not> has_key editors ''vi''"
    by (simp_all add: editors_def has_key_def)
  have 1: "resolve editors ''vim'' = Inr ''vim''"
    using name_resolution[of editors "''vim''"] a by simp
  have 2: "resolve editors ''an'' = Inr ''nano''"
    using name_resolution[of editors "''an''" "''nano''"] b find_packages_editors by simp
  have 3: "resolve editors ''zsh'' = Inl (NoMatch ''zsh'')"
    using name_resolution[of editors "''zsh''"] c find_packages_editors by simp
  have 4: "resolve editors ''vi'' = Inl (AmbiguousName ''vi'' 2)"
    using name_resolution[of editors "''vi''"] d find_packages_editors by simp
  have 5: "\<exists>m'. resolve_all editors [''nano'', ''vi'', ''vim''] [] = Inl m'"
    using name_resolution[of editors "''vi''" _ "[''nano'', ''vi'', ''vim'']" "AmbiguousName ''vi'' 2"] 4
    by simp
  from 1 2 3 4 5 show ?thesis by blast
qed

section \<open>The objects of the examples\<close>

text \<open>
  The objects of the examples: a root directory \<^verbatim>\<open>/r\<close>, and four packages whose
  dependencies form a diamond closed to a cycle
  (\<^verbatim>\<open>a\<close> needs \<^verbatim>\<open>b\<close> and \<^verbatim>\<open>c\<close>, both need \<^verbatim>\<open>d\<close>, and \<^verbatim>\<open>d\<close> needs \<^verbatim>\<open>a\<close>).
\<close>

definition example_config :: config where
  "example_config = \<lparr>mirror = ''http://m'', install_root = [''r'']\<rparr>"

definition example_args :: "string list \<Rightarrow> arguments" where
  "example_args ps = \<lparr>arg_dist = ''eoan'', arg_repo = ''main'', arg_system = False, arg_packages = ps\<rparr>"

definition cyclic_index :: package_index where
  "cyclic_index = [(''a'', example_entry ''a.deb'' (Some [''b (>= 2)'', ''c''])),
                   (''b'', example_entry ''b.deb'' (Some [''d''])),
                   (''c'', example_entry ''c.deb'' (Some [''d''])),
                   (''d'', example_entry ''d.deb'' (Some [''a'']))]"

definition example_env :: env where
  "example_env = \<lparr>feed = (\<lambda>url. Inr cyclic_index),
                   archive = (\<lambda>url. if url = ''http://m/a.deb'' then Inr [[''bin'', ''a'']]
                                     else if url = ''http://m/b.deb'' then Inr [[''bin'', ''b'']]
                                     else if url = ''http://m/c.deb'' then Inr [[''lib'', ''c'']]
                                     else if url = ''http://m/d.deb'' then Inr [[''lib'', ''d'']]
                                     else Inl (FetchError url))\<rparr>"

definition example_installer :: installer where
  "example_installer = \<lparr>ins_env = example_env, ins_args = example_args [''a''],
                         ins_config = example_config, ins_index = cyclic_index, ins_tmp = [''tmp'', ''t'']\<rparr>"

definition empty_state :: state where
  "empty_state = \<lparr>disk = [([], Dir), ([''r''], Dir)], net = [], out = [], persisted = [],
                   cached = (\<lambda>p. []), installed = [], new_installed = [], install_dir = []\<rparr>"

text \<open>A disk on which the index is cached, and nothing is installed.\<close>

definition cached_state :: state where
  "cached_state =
     empty_state\<lparr>disk := [([], Dir), ([''r''], Dir), ([''r'', ''etc''], Dir),
                           ([''r'', ''etc'', ''apt-rip''], Dir),
                           ([''r'', ''etc'', ''apt-rip'', ''package-indices''], Dir),
                           ([''r'', ''etc'', ''apt-rip'', ''package-indices'', ''eoan-main.json''], File)],
                  cached := (\<lambda>p. cyclic_index)\<rparr>"

definition example_info :: "bool \<Rightarrow> path list \<Rightarrow> string list \<Rightarrow> install_info" where
  "example_info e fs ds = \<lparr>info_dist = ''eoan'', info_repo = ''main'', info_explicit = PyBool e,
                            info_files = fs, info_depends = ds\<rparr>"

lemmas example_defs = example_config_def example_args_def cyclic_index_def example_env_def
  example_installer_def empty_state_def example_info_def example_entry_def cached_state_def

lemmas fs_defs = path_exists_def mkdir_def shutil_move_def move_file_def write_file_def
  os_remove_def rmdir_def removedirs_def

lemma install_cyclic:
  "install example_installer ''a'' True empty_state = Returned
     (empty_state\<lparr>net := [''http://m/a.deb'', ''http://m/b.deb'', ''http://m/d.deb'', ''http://m/c.deb''],
        new_installed := [(''a'', example_info True [[''bin'', ''a'']] [''b'', ''c'']),
                          (''b'', example_info False [[''bin'', ''b'']] [''d'']),
                          (''d'', example_info False [[''lib'', ''d'']] [''a'']),
                          (''c'', example_info False [[''lib'', ''c'']] [''d''])],
        install_dir := [([], Dir), ([''bin''], Dir), ([''bin'', ''a''], File), ([''bin'', ''b''], File),
                        ([''lib''], Dir), ([''lib'', ''d''], File), ([''lib'', ''c''], File)]\<rparr>)"
  by (simp add: example_defs install.simps has_key_def stage_package_def fetch_package_def
      dep_name_def fs_defs makedirs.simps Let_def)


section \<open>Packages that are installed already\<close>

text \<open>
  C9.  For a package that is a key of \<^verbatim>\<open>installed\<close> or of \<^verbatim>\<open>new_installed\<close>,
  \<^verbatim>\<open>install(P, False)\<close> returns with the state as it was: nothing is downloaded,
  staged or recorded.  \<^verbatim>\<open>install(P, True)\<close> returns with one more printed line and
  nothing else changed.
\<close>

theorem install_idempotent:
  assumes "has_key (installed s) P \<or> has_key (new_installed s) P"
  shows "install c P False s = Returned s
       \<and> install c P True s = Returned (s\<lparr>out := out s @ [AlreadyInstalled P]\<rparr>)"
  using assms by (simp add: install.simps)

theorem install_idempotent_witness:
  "install example_installer ''d'' False
       (empty_state\<lparr>installed := [(''d'', example_info True [[''lib'', ''d'']] [''a''])]\<rparr>)
     = Returned (empty_state\<lparr>installed := [(''d'', example_info True [[''lib'', ''d'']] [''a''])]\<rparr>)
   \<and> install example_installer ''d'' True
       (empty_state\<lparr>installed := [(''d'', example_info True [[''lib'', ''d'']] [''a''])]\<rparr>)
     = Returned (empty_state\<lparr>installed := [(''d'', example_info True [[''lib'', ''d'']] [''a''])],
                               out := [AlreadyInstalled ''d'']\<rparr>)"
  using install_idempotent[of "empty_state\<lparr>installed := [(''d'', example_info True [[''lib'', ''d'']] [''a''])]\<rparr>"
      "''d''" example_installer]
  by (simp add: has_key_def empty_state_def)

section \<open>Packages marked as installed by the system\<close>

lemma mark_system_new:
  "\<not> has_key (installed s) P \<Longrightarrow>
     mark_system [P] s = s\<lparr>installed := AList.update P system_info (installed s)\<rparr>"
  by simp

lemma mark_system_known:
  "has_key (installed s) P \<Longrightarrow> mark_system [P] s = s\<lparr>out := out s @ [AlreadyInstalled P]\<rparr>"
  by simp

text \<open>
  C7.  \<^verbatim>\<open>install --system libc6\<close> with the index cached and no state file: nothing is
  downloaded, and the state file then holds an entry for \<^verbatim>\<open>libc6\<close> without files and
  dependencies and with the provenance \<^verbatim>\<open>special\<close>, \<^verbatim>\<open>system\<close>.  Its
  \<^verbatim>\<open>explicit\<close> value is the string \<^verbatim>\<open>'True'\<close>, not the boolean.
\<close>

theorem system_mark_explicit_is_string:
  "(\<exists>s'. cmd_install example_env [''tmp'', ''t''] example_config
            ((example_args [''libc6''])\<lparr>arg_system := True\<rparr>) cached_state = Returned s'
         \<and> net s' = []
         \<and> persisted s' = [(''libc6'', system_info)])
   \<and> info_files system_info = [] \<and> info_depends system_info = []
   \<and> info_dist system_info = ''special'' \<and> info_repo system_info = ''system''
   \<and> info_explicit system_info = PyStr ''True''
   \<and> info_explicit system_info \<noteq> PyBool True"
  by (simp add: cmd_install_def read_package_index_def read_installed_def write_installed_def
      index_path_def state_path_def example_defs fs_defs has_key_def system_info_def Let_def)


section \<open>Removal of a package that others need\<close>

lemma reverse_dependencies_count:
  assumes "distinct (map fst inst)"
  shows "length (direct_reverse_dependencies inst P)
       = card {Q. \<exists>iq. map_of inst Q = Some iq \<and> P \<in> set (info_depends iq)}"
proof -
  have d: "distinct (direct_reverse_dependencies inst P)"
    unfolding direct_reverse_dependencies_def using assms by (rule distinct_map_filter)
  have "set (direct_reverse_dependencies inst P)
      = {Q. \<exists>iq. map_of inst Q = Some iq \<and> P \<in> set (info_depends iq)}"
    using assms by (auto simp: direct_reverse_dependencies_def image_iff)
  then show ?thesis using distinct_card[OF d] by simp
qed

definition needed_state :: state where
  "needed_state =
     empty_state\<lparr>disk := [([], Dir), ([''r''], Dir), ([''r'', ''lib''], Dir), ([''r'', ''lib'', ''d''], File)],
                  installed := [(''b'', example_info True [] [''d'']),
                                (''c'', example_info True [] [''d'']),
                                (''d'', example_info False [[''lib'', ''d'']] [])]\<rparr>"

text \<open>
  C3.  Let \<open>P\<close> be installed and occur in the \<^verbatim>\<open>depends\<close> list of an installed package.
  Then \<^verbatim>\<open>remove(P, quiet=False)\<close> raises the exception that names the number of
  packages whose \<^verbatim>\<open>depends\<close> list holds \<open>P\<close>, and \<^verbatim>\<open>remove(P, quiet=True)\<close> returns;
  in both cases the state (the dictionary, the files, the printed lines) is the one before
  the call.
\<close>

theorem removal_safety:
  assumes "has_key (installed s) P" and "(Q, iq) \<in> set (installed s)" and "P \<in> set (info_depends iq)"
  shows "remove cfg P False s
           = Raised (BlockedByDependentsError P (length (direct_reverse_dependencies (installed s) P))) s
       \<and> Q \<in> set (direct_reverse_dependencies (installed s) P)
       \<and> (distinct (map fst (installed s)) \<longrightarrow>
            length (direct_reverse_dependencies (installed s) P)
              = card {Q. \<exists>iq. map_of (installed s) Q = Some iq \<and> P \<in> set (info_depends iq)})
       \<and> remove cfg P True s = Returned s"
proof -
  have q: "Q \<in> set (direct_reverse_dependencies (installed s) P)"
    using assms(2,3) by (force simp: direct_reverse_dependencies_def)
  then have ne: "direct_reverse_dependencies (installed s) P \<noteq> []" by auto
  obtain info where i: "map_of (installed s) P = Some info"
    using assms(1) by (auto simp: has_key_def)
  show ?thesis
    using q ne i reverse_dependencies_count[of "installed s" P]
    by (simp add: remove.simps Let_def)
qed

theorem removal_safety_witness:
  "remove example_config ''d'' False needed_state = Raised (BlockedByDependentsError ''d'' 2) needed_state
   \<and> remove example_config ''d'' True needed_state = Returned needed_state"
proof -
  have a: "has_key (installed needed_state) ''d''"
    and b: "(''b'', example_info True [] [''d'']) \<in> set (installed needed_state)"
    and c: "''d'' \<in> set (info_depends (example_info True [] [''d'']))"
    and n: "length (direct_reverse_dependencies (installed needed_state) ''d'') = 2"
    by (simp_all add: needed_state_def empty_state_def has_key_def example_info_def
        direct_reverse_dependencies_def)
  from removal_safety[OF a b c, of example_config] n show ?thesis by simp
qed

lemma cmd_remove_blocked:
  assumes "read_installed cfg s = Inr inst" "has_key inst P" "(Q, iq) \<in> set inst" "P \<in> set (info_depends iq)"
  shows "\<exists>n s'. cmd_remove cfg [P] s = Raised (BlockedByDependentsError P n) s'
           \<and> disk s' = disk s \<and> persisted s' = persisted s"
proof -
  obtain info where i: "map_of inst P = Some info"
    using assms(2) by (auto simp: has_key_def)
  have "Q \<in> set (direct_reverse_dependencies inst P)"
    using assms(3,4) by (force simp: direct_reverse_dependencies_def)
  then have ne: "direct_reverse_dependencies inst P \<noteq> []" by auto
  show ?thesis using assms(1,2) i ne by (simp add: cmd_remove_def remove.simps Let_def)
qed

section \<open>Termination\<close>

text \<open>The state after \<^verbatim>\<open>a\<close> of the cyclic index is staged, before its dependencies are visited.\<close>

definition staged_a :: state where
  "staged_a = empty_state\<lparr>net := [''http://m/a.deb''],
       new_installed := [(''a'', example_info True [[''bin'', ''a'']] [''b'', ''c''])],
       install_dir := [([], Dir), ([''bin''], Dir), ([''bin'', ''a''], File)]\<rparr>"

lemma stage_package_a:
  "stage_package example_installer ''a'' True empty_state = Returned ([''b (>= 2)'', ''c''], staged_a)"
  by (simp add: example_defs staged_a_def stage_package_def fetch_package_def
      dep_name_def fs_defs makedirs.simps Let_def)

text \<open>
  C10.  The recursion of \<^verbatim>\<open>install\<close> and that of \<^verbatim>\<open>remove\<close> are well-founded at
  every input, whatever the dependencies of the index or of the recorded packages are
  (cycles included): each argument is in the domain on which the function package
  proves the recursion to end.  The reasons are the ones of the claim: staging a package
  enters it into \<^verbatim>\<open>new_installed\<close> before the dependencies are visited, so that fewer
  packages of the index are left; and \<^verbatim>\<open>remove\<close> deletes the entry of an installed package
  before it visits the dependencies, so that the dictionary becomes shorter.
\<close>

theorem install_remove_terminate:
  "install_install_deps_dom (Inl (c, package, explicit, s))
   \<and> install_install_deps_dom (Inr (c, dependencies, s))
   \<and> remove_remove_deps_dom (Inl (cfg, package, quiet, s))
   \<and> remove_remove_deps_dom (Inr (cfg, dependencies, s))
   \<and> (\<not> has_key (new_installed s) package
        \<and> stage_package c package explicit s = Returned (dependencies, s') \<longrightarrow>
          has_key (new_installed s') package \<and> todo c s' < todo c s)
   \<and> (map_of (installed s) package = Some info \<longrightarrow>
          \<not> has_key (AList.delete package (installed s)) package
          \<and> length (AList.delete package (installed s)) < length (installed s))"
proof -
  have "has_key (new_installed s') package \<and> todo c s' < todo c s"
    if a: "\<not> has_key (new_installed s) package"
      and b: "stage_package c package explicit s = Returned (dependencies, s')"
  proof -
    from stage_package_new(2)[OF b] obtain i where
      n: "new_installed s' = AList.update package i (new_installed s)" by blast
    then have "has_key (new_installed s') package"
      by (simp add: has_key_def AList.update_conv')
    with todo_less[OF stage_package_new(1)[OF b] a n] show ?thesis by simp
  qed
  moreover have "\<not> has_key (AList.delete package (installed s)) package"
    by (simp add: has_key_def AList.delete_conv')
  ultimately show ?thesis
    using install_dom_total remove_dom_total length_delete_less[of "installed s" package info]
    by auto
qed

theorem install_remove_terminate_witness:
  "has_key (new_installed staged_a) ''a''
   \<and> todo example_installer staged_a < todo example_installer empty_state
   \<and> \<not> has_key (AList.delete ''d'' (installed needed_state)) ''d''
   \<and> length (AList.delete ''d'' (installed needed_state)) < length (installed needed_state)"
proof -
  have a: "\<not> has_key (new_installed empty_state) ''a''"
    by (simp add: empty_state_def has_key_def)
  have d: "map_of (installed needed_state) ''d'' = Some (example_info False [[''lib'', ''d'']] [])"
    by (simp add: needed_state_def empty_state_def)
  from install_remove_terminate[of example_installer "''a''" True empty_state "[''b (>= 2)'', ''c'']"
      example_config False staged_a]
    a stage_package_a
  have 1: "has_key (new_installed staged_a) ''a''
      \<and> todo example_installer staged_a < todo example_installer empty_state" by simp
  from install_remove_terminate[of example_installer "''d''" True needed_state "[]"
      example_config False needed_state "example_info False [[''lib'', ''d'']] []"] d
  have 2: "\<not> has_key (AList.delete ''d'' (installed needed_state)) ''d''
      \<and> length (AList.delete ''d'' (installed needed_state)) < length (installed needed_state)"
    by simp
  from 1 2 show ?thesis by simp
qed

section \<open>The cascade of removals\<close>

lemma remove_deps_step:
  "remove_deps cfg (D # rest) s =
     (if has_key (installed s) D \<and> \<not> truthy (info_explicit (the (map_of (installed s) D)))
      then (case remove cfg D True s of
              Raised e t \<Rightarrow> Raised e t
            | Returned t \<Rightarrow> remove_deps cfg rest t)
      else remove_deps cfg rest s)"
  by (auto simp: has_key_def split: option.splits)

lemma remove_unfold:
  assumes "remove cfg p q s = Returned s'" "map_of (installed s) p = Some info"
    "direct_reverse_dependencies (installed s) p = []"
  obtains s1 where "remove_files cfg p (info_files info) s = Returned s1"
    "installed s1 = installed s"
    "remove_deps cfg (info_depends info) (s1\<lparr>installed := AList.delete p (installed s)\<rparr>) = Returned s'"
proof -
  from assms obtain s1 where rf: "remove_files cfg p (info_files info) s = Returned s1"
    and r: "remove_deps cfg (info_depends info) (s1\<lparr>installed := AList.delete p (installed s1)\<rparr>) = Returned s'"
    by (auto simp: remove.simps Let_def split: outcome.splits)
  from remove_files_frame[OF rf] have "installed s1 = installed s" by simp
  with rf r that show ?thesis by simp
qed

lemma remove_subset:
  "remove cfg p q s = Returned s' \<Longrightarrow> set (installed s') \<subseteq> set (installed s)"
  "remove_deps cfg ds s = Returned s' \<Longrightarrow> set (installed s') \<subseteq> set (installed s)"
proof (induction cfg p q s and cfg ds s arbitrary: s' and s' rule: remove_remove_deps.induct)
  case (1 cfg package quiet s)
  show ?case
  proof (cases "map_of (installed s) package")
    case None
    with 1(2) show ?thesis by (simp add: remove.simps)
  next
    case (Some info)
    show ?thesis
    proof (cases "direct_reverse_dependencies (installed s) package = []")
      case False
      with 1(2) Some show ?thesis by (auto simp: remove.simps Let_def split: if_splits)
    next
      case True
      from remove_unfold[OF 1(2) Some True] obtain s1 where
        rf: "remove_files cfg package (info_files info) s = Returned s1"
        and eq: "installed s1 = installed s"
        and r: "remove_deps cfg (info_depends info)
                  (s1\<lparr>installed := AList.delete package (installed s)\<rparr>) = Returned s'"
        by blast
      have "set (installed s') \<subseteq> set (AList.delete package (installed s))"
        using 1(1)[OF Some refl _ rf] True r eq by simp
      then show ?thesis by (auto simp: AList.delete_eq)
    qed
  qed
next
  case (2 cfg s)
  then show ?case by simp
next
  case (3 cfg dep rest s)
  show ?case
  proof (cases "map_of (installed s) dep")
    case None
    with 3 show ?thesis by simp
  next
    case (Some info)
    show ?thesis
    proof (cases "truthy (info_explicit info)")
      case True
      with 3 Some show ?thesis by simp
    next
      case False
      with 3(5) Some obtain s1 where a: "remove cfg dep True s = Returned s1"
        and b: "remove_deps cfg rest s1 = Returned s'"
        by (auto split: outcome.splits)
      from 3(2)[OF Some _ a] 3(3)[OF Some _ a b] False show ?thesis by auto
    qed
  qed
qed


lemma reverse_dependencies_nonempty:
  "(C, ic) \<in> set inst \<Longrightarrow> B \<in> set (info_depends ic) \<Longrightarrow> direct_reverse_dependencies inst B \<noteq> []"
  by (force simp: direct_reverse_dependencies_def filter_empty_conv)

lemma reverse_dependencies_subset:
  "set inst' \<subseteq> set inst \<Longrightarrow> direct_reverse_dependencies inst B = [] \<Longrightarrow>
     direct_reverse_dependencies inst' B = []"
  by (auto simp: direct_reverse_dependencies_def filter_empty_conv)

lemma map_of_None_subset:
  "set a \<subseteq> set b \<Longrightarrow> map_of b k = None \<Longrightarrow> map_of a k = None"
  by (auto simp: map_of_eq_None_iff)

lemma remove_map_le:
  "remove cfg p q s = Returned s' \<Longrightarrow> map_of (installed s') k = Some v \<Longrightarrow>
     map_of (installed s) k = Some v"
  "remove_deps cfg ds s = Returned s' \<Longrightarrow> map_of (installed s') k = Some v \<Longrightarrow>
     map_of (installed s) k = Some v"
proof (induction cfg p q s and cfg ds s arbitrary: s' and s' rule: remove_remove_deps.induct)
  case (1 cfg package quiet s)
  show ?case
  proof (cases "map_of (installed s) package")
    case None
    with 1(2,3) show ?thesis by (simp add: remove.simps)
  next
    case (Some info)
    show ?thesis
    proof (cases "direct_reverse_dependencies (installed s) package = []")
      case False
      with 1(2,3) Some show ?thesis by (auto simp: remove.simps Let_def split: if_splits)
    next
      case True
      from remove_unfold[OF 1(2) Some True] obtain s1 where
        rf: "remove_files cfg package (info_files info) s = Returned s1"
        and eq: "installed s1 = installed s"
        and r: "remove_deps cfg (info_depends info)
                  (s1\<lparr>installed := AList.delete package (installed s)\<rparr>) = Returned s'"
        by blast
      have "map_of (AList.delete package (installed s)) k = Some v"
        using 1(1)[OF Some refl _ rf _ 1(3)] True r eq by simp
      then show ?thesis by (simp add: AList.delete_conv' split: if_splits)
    qed
  qed
next
  case (2 cfg s)
  then show ?case by simp
next
  case (3 cfg dep rest s)
  show ?case
  proof (cases "map_of (installed s) dep")
    case None
    with 3 show ?thesis by simp
  next
    case (Some info)
    show ?thesis
    proof (cases "truthy (info_explicit info)")
      case True
      with 3 Some show ?thesis by simp
    next
      case False
      with 3(5) Some obtain s1 where a: "remove cfg dep True s = Returned s1"
        and b: "remove_deps cfg rest s1 = Returned s'"
        by (auto split: outcome.splits)
      from 3(3)[OF Some _ a b 3(6)] False have "map_of (installed s1) k = Some v" by simp
      from 3(2)[OF Some _ a this] False show ?thesis by simp
    qed
  qed
qed

lemma remove_keeps_explicit:
  "remove cfg p q s = Returned s' \<Longrightarrow> map_of (installed s) B = Some ib \<Longrightarrow>
     truthy (info_explicit ib) \<Longrightarrow> B \<noteq> p \<Longrightarrow> map_of (installed s') B = Some ib"
  "remove_deps cfg ds s = Returned s' \<Longrightarrow> map_of (installed s) B = Some ib \<Longrightarrow>
     truthy (info_explicit ib) \<Longrightarrow> map_of (installed s') B = Some ib"
proof (induction cfg p q s and cfg ds s arbitrary: s' and s' rule: remove_remove_deps.induct)
  case (1 cfg package quiet s)
  show ?case
  proof (cases "map_of (installed s) package")
    case None
    with 1(2,3) show ?thesis by (simp add: remove.simps)
  next
    case (Some info)
    show ?thesis
    proof (cases "direct_reverse_dependencies (installed s) package = []")
      case False
      with 1(2,3) Some show ?thesis by (auto simp: remove.simps Let_def split: if_splits)
    next
      case True
      from remove_unfold[OF 1(2) Some True] obtain s1 where
        rf: "remove_files cfg package (info_files info) s = Returned s1"
        and eq: "installed s1 = installed s"
        and r: "remove_deps cfg (info_depends info)
                  (s1\<lparr>installed := AList.delete package (installed s)\<rparr>) = Returned s'"
        by blast
      have "map_of (AList.delete package (installed s)) B = Some ib"
        using 1(3,5) by simp
      then show ?thesis
        using 1(1)[OF Some refl _ rf _ _ 1(4)] True r eq by simp
    qed
  qed
next
  case (2 cfg s)
  then show ?case by simp
next
  case (3 cfg dep rest s)
  show ?case
  proof (cases "map_of (installed s) dep")
    case None
    with 3 show ?thesis by simp
  next
    case (Some info)
    show ?thesis
    proof (cases "truthy (info_explicit info)")
      case True
      with 3 Some show ?thesis by simp
    next
      case False
      with 3(5) Some obtain s1 where a: "remove cfg dep True s = Returned s1"
        and b: "remove_deps cfg rest s1 = Returned s'"
        by (auto split: outcome.splits)
      have ne: "B \<noteq> dep" using False Some 3(6,7) by auto
      from 3(2)[OF Some _ a 3(6,7) ne] False have "map_of (installed s1) B = Some ib" by simp
      from 3(3)[OF Some _ a b this 3(7)] False show ?thesis by simp
    qed
  qed
qed

lemma remove_keeps_needed:
  "remove cfg p q s = Returned s' \<Longrightarrow> (C, ic) \<in> set (installed s') \<Longrightarrow>
     B \<in> set (info_depends ic) \<Longrightarrow> map_of (installed s) B = Some ib \<Longrightarrow>
     map_of (installed s') B = Some ib"
  "remove_deps cfg ds s = Returned s' \<Longrightarrow> (C, ic) \<in> set (installed s') \<Longrightarrow>
     B \<in> set (info_depends ic) \<Longrightarrow> map_of (installed s) B = Some ib \<Longrightarrow>
     map_of (installed s') B = Some ib"
proof (induction cfg p q s and cfg ds s arbitrary: s' and s' rule: remove_remove_deps.induct)
  case (1 cfg package quiet s)
  show ?case
  proof (cases "map_of (installed s) package")
    case None
    with 1(2,5) show ?thesis by (simp add: remove.simps)
  next
    case (Some info)
    show ?thesis
    proof (cases "direct_reverse_dependencies (installed s) package = []")
      case False
      with 1(2,5) Some show ?thesis by (auto simp: remove.simps Let_def split: if_splits)
    next
      case True
      from remove_unfold[OF 1(2) Some True] obtain s1 where
        rf: "remove_files cfg package (info_files info) s = Returned s1"
        and eq: "installed s1 = installed s"
        and r: "remove_deps cfg (info_depends info)
                  (s1\<lparr>installed := AList.delete package (installed s)\<rparr>) = Returned s'"
        by blast
      have "(C, ic) \<in> set (installed s)"
        using remove_subset(2)[OF r] 1(3) by (auto simp: AList.delete_eq)
      with reverse_dependencies_nonempty[OF this 1(4)] True have "B \<noteq> package" by auto
      then have "map_of (AList.delete package (installed s)) B = Some ib"
        using 1(5) by simp
      then show ?thesis
        using 1(1)[OF Some refl _ rf _ 1(3,4)] True r eq by simp
    qed
  qed
next
  case (2 cfg s)
  then show ?case by simp
next
  case (3 cfg dep rest s)
  show ?case
  proof (cases "map_of (installed s) dep")
    case None
    with 3 show ?thesis by simp
  next
    case (Some info)
    show ?thesis
    proof (cases "truthy (info_explicit info)")
      case True
      with 3 Some show ?thesis by simp
    next
      case False
      with 3(5) Some obtain s1 where a: "remove cfg dep True s = Returned s1"
        and b: "remove_deps cfg rest s1 = Returned s'"
        by (auto split: outcome.splits)
      have "(C, ic) \<in> set (installed s1)" using remove_subset(2)[OF b] 3(6) by auto
      from 3(2)[OF Some _ a this 3(7,8)] False have "map_of (installed s1) B = Some ib" by simp
      from 3(3)[OF Some _ a b 3(6,7) this] False show ?thesis by simp
    qed
  qed
qed


lemma remove_deps_cascades:
  "remove_deps cfg ds s = Returned s' \<Longrightarrow> B \<in> set ds \<Longrightarrow> map_of (installed s) B = Some ib \<Longrightarrow>
     \<not> truthy (info_explicit ib) \<Longrightarrow> direct_reverse_dependencies (installed s) B = [] \<Longrightarrow>
     map_of (installed s') B = None"
proof (induction ds arbitrary: s)
  case Nil
  then show ?case by simp
next
  case (Cons d rest)
  show ?case
  proof (cases "d = B")
    case True
    with Cons.prems obtain s1 where a: "remove cfg B True s = Returned s1"
      and b: "remove_deps cfg rest s1 = Returned s'"
      by (auto split: outcome.splits)
    from remove_unfold[OF a Cons.prems(3,5)] obtain t where
      r: "remove_deps cfg (info_depends ib) (t\<lparr>installed := AList.delete B (installed s)\<rparr>) = Returned s1"
      by blast
    have "map_of (AList.delete B (installed s)) B = None" by (simp add: AList.delete_conv')
    with map_of_None_subset[OF remove_subset(2)[OF r]] have "map_of (installed s1) B = None" by simp
    with map_of_None_subset[OF remove_subset(2)[OF b]] show ?thesis by simp
  next
    case False
    with Cons.prems(2) have inrest: "B \<in> set rest" by simp
    show ?thesis
    proof (cases "has_key (installed s) d \<and> \<not> truthy (info_explicit (the (map_of (installed s) d)))")
      case False
      with Cons.prems(1) have "remove_deps cfg rest s = Returned s'"
        by (simp add: remove_deps_step del: remove_deps.simps)
      from Cons.IH[OF this inrest Cons.prems(3,4,5)] show ?thesis .
    next
      case True
      with Cons.prems(1) have "(case remove cfg d True s of
              Raised e t \<Rightarrow> Raised e t
            | Returned t \<Rightarrow> remove_deps cfg rest t) = Returned s'"
        by (simp add: remove_deps_step del: remove_deps.simps)
      then obtain s1 where a: "remove cfg d True s = Returned s1"
        and b: "remove_deps cfg rest s1 = Returned s'"
        by (auto split: outcome.splits)
      show ?thesis
      proof (cases "map_of (installed s1) B")
        case None
        with map_of_None_subset[OF remove_subset(2)[OF b]] show ?thesis by simp
      next
        case (Some v)
        from remove_map_le(1)[OF a Some] Cons.prems(3) have v: "v = ib" by simp
        from reverse_dependencies_subset[OF remove_subset(1)[OF a] Cons.prems(5)]
        have "direct_reverse_dependencies (installed s1) B = []" .
        from Cons.IH[OF b inrest Some[unfolded v] Cons.prems(4) this] show ?thesis .
      qed
    qed
  qed
qed

lemma remove_deps_skips:
  "(\<And>D i. D \<in> set ds \<Longrightarrow> map_of (installed s) D = Some i \<Longrightarrow>
        truthy (info_explicit i) \<or> direct_reverse_dependencies (installed s) D \<noteq> []) \<Longrightarrow>
     remove_deps cfg ds s = Returned s"
proof (induction ds)
  case Nil
  show ?case by simp
next
  case (Cons d rest)
  have rest: "remove_deps cfg rest s = Returned s" using Cons by simp
  show ?case
  proof (cases "map_of (installed s) d")
    case None
    with rest show ?thesis by simp
  next
    case (Some i)
    from Cons.prems[OF _ Some]
    have "truthy (info_explicit i) \<or> direct_reverse_dependencies (installed s) d \<noteq> []" by simp
    then show ?thesis using Some rest by (auto simp: remove.simps Let_def)
  qed
qed

text \<open>Three dictionaries for the cascade: \<^verbatim>\<open>a\<close> needs \<^verbatim>\<open>b\<close>.\<close>

definition cascade_state :: "bool \<Rightarrow> installation_state \<Rightarrow> state" where
  "cascade_state b_explicit others =
     empty_state\<lparr>disk := [([], Dir), ([''r''], Dir), ([''r'', ''etc''], Dir),
                           ([''r'', ''etc'', ''apt-rip''], Dir),
                           ([''r'', ''etc'', ''apt-rip'', ''installed_packages.json''], File),
                           ([''r'', ''bin''], Dir), ([''r'', ''bin'', ''a''], File),
                           ([''r'', ''lib''], Dir), ([''r'', ''lib'', ''b''], File)],
                  installed := [(''a'', example_info True [[''bin'', ''a'']] [''b'']),
                                (''b'', example_info b_explicit [[''lib'', ''b'']] [])] @ others\<rparr>"

definition cascade_disk :: "path list \<Rightarrow> fs" where
  "cascade_disk rest =
     [([], Dir), ([''r''], Dir), ([''r'', ''etc''], Dir), ([''r'', ''etc'', ''apt-rip''], Dir),
      ([''r'', ''etc'', ''apt-rip'', ''installed_packages.json''], File)]
     @ concat (map (\<lambda>p. [(butlast p, Dir), (p, File)]) rest)"

lemmas remove_defs = remove.simps direct_reverse_dependencies_def prune_parents.simps Let_def

lemma remove_cascade_both:
  "remove example_config ''a'' False (cascade_state False [])
     = Returned ((cascade_state False [])\<lparr>disk := cascade_disk [], installed := []\<rparr>)"
  by (simp add: cascade_state_def cascade_disk_def example_defs remove_defs fs_defs)

lemma remove_cascade_explicit:
  "remove example_config ''a'' False (cascade_state True [])
     = Returned ((cascade_state True [])\<lparr>disk := cascade_disk [[''r'', ''lib'', ''b'']],
           installed := [(''b'', example_info True [[''lib'', ''b'']] [])]\<rparr>)"
  by (simp add: cascade_state_def cascade_disk_def example_defs remove_defs fs_defs)

lemma remove_cascade_needed:
  "remove example_config ''a'' False (cascade_state False [(''c'', example_info True [] [''b''])])
     = Returned ((cascade_state False [(''c'', example_info True [] [''b''])])
          \<lparr>disk := cascade_disk [[''r'', ''lib'', ''b'']],
           installed := [(''b'', example_info False [[''lib'', ''b'']] []),
                         (''c'', example_info True [] [''b''])]\<rparr>)"
  by (simp add: cascade_state_def cascade_disk_def example_defs remove_defs fs_defs)


text \<open>
  C4.  The last loop of \<^verbatim>\<open>remove\<close> calls \<^verbatim>\<open>remove(dep, True)\<close> exactly for the names
  that are still keys of \<^verbatim>\<open>installed\<close> and whose \<^verbatim>\<open>explicit\<close> value is falsy.
  Hence, when \<^verbatim>\<open>remove(A, False)\<close> returns for an installed \<open>A\<close> with the installed
  dependency \<open>B\<close>: \<open>A\<close> is gone; \<open>B\<close> is gone too when its \<^verbatim>\<open>explicit\<close> value is falsy and
  only \<open>A\<close> had it in a \<^verbatim>\<open>depends\<close> list; \<open>B\<close> stays, with its entry, when its
  \<^verbatim>\<open>explicit\<close> value is truthy or when a package that is left has it in its
  \<^verbatim>\<open>depends\<close> list; and when every installed dependency of \<open>A\<close> is explicit or needed
  by another package than \<open>A\<close>, the dictionary loses the entry of \<open>A\<close> and no other.
\<close>

theorem cascade_boundary:
  assumes "remove cfg A False s = Returned s'"
    and "map_of (installed s) A = Some ia"
    and "B \<in> set (info_depends ia)" and "B \<noteq> A"
    and "map_of (installed s) B = Some ib"
  shows "remove_deps cfg (D # rest) t =
           (if has_key (installed t) D \<and> \<not> truthy (info_explicit (the (map_of (installed t) D)))
            then (case remove cfg D True t of
                    Raised e u \<Rightarrow> Raised e u
                  | Returned u \<Rightarrow> remove_deps cfg rest u)
            else remove_deps cfg rest t)
       \<and> \<not> has_key (installed s') A
       \<and> (\<not> truthy (info_explicit ib)
            \<and> (\<forall>(C, ic) \<in> set (installed s). B \<in> set (info_depends ic) \<longrightarrow> C = A)
          \<longrightarrow> \<not> has_key (installed s') B)
       \<and> (truthy (info_explicit ib) \<longrightarrow> map_of (installed s') B = Some ib)
       \<and> ((\<exists>(C, ic) \<in> set (installed s'). B \<in> set (info_depends ic))
          \<longrightarrow> map_of (installed s') B = Some ib)
       \<and> ((\<forall>D \<in> set (info_depends ia). \<forall>i. map_of (installed s) D = Some i \<longrightarrow>
              D = A \<or> truthy (info_explicit i)
              \<or> (\<exists>(C, ic) \<in> set (installed s). C \<noteq> A \<and> D \<in> set (info_depends ic)))
          \<longrightarrow> installed s' = AList.delete A (installed s))"
proof -
  have nordeps: "direct_reverse_dependencies (installed s) A = []"
    using assms(1,2) by (auto simp: remove.simps Let_def split: if_splits)
  from remove_unfold[OF assms(1,2) nordeps] obtain s1 where
    r: "remove_deps cfg (info_depends ia) (s1\<lparr>installed := AList.delete A (installed s)\<rparr>) = Returned s'"
    by blast
  let ?s2 = "s1\<lparr>installed := AList.delete A (installed s)\<rparr>"
  have b2: "map_of (installed ?s2) B = Some ib" using assms(4,5) by simp
  have gone: "\<not> has_key (installed s') A"
    using map_of_None_subset[OF remove_subset(2)[OF r], of A]
    by (simp add: has_key_def AList.delete_conv')
  have casc: "\<not> has_key (installed s') B"
    if "\<not> truthy (info_explicit ib)"
      and "\<forall>(C, ic) \<in> set (installed s). B \<in> set (info_depends ic) \<longrightarrow> C = A"
  proof -
    have "direct_reverse_dependencies (installed ?s2) B = []"
      using that(2) by (auto simp: direct_reverse_dependencies_def filter_empty_conv AList.delete_eq)
    from remove_deps_cascades[OF r assms(3) b2 that(1) this] show ?thesis
      by (simp add: has_key_def)
  qed
  have expl: "map_of (installed s') B = Some ib" if "truthy (info_explicit ib)"
    using remove_keeps_explicit(2)[OF r b2 that] .
  have need: "map_of (installed s') B = Some ib"
    if "\<exists>(C, ic) \<in> set (installed s'). B \<in> set (info_depends ic)"
    using that remove_keeps_needed(2)[OF r _ _ b2] by blast
  have only: "installed s' = AList.delete A (installed s)"
    if h: "\<forall>D \<in> set (info_depends ia). \<forall>i. map_of (installed s) D = Some i \<longrightarrow>
              D = A \<or> truthy (info_explicit i)
              \<or> (\<exists>(C, ic) \<in> set (installed s). C \<noteq> A \<and> D \<in> set (info_depends ic))"
  proof -
    have "remove_deps cfg (info_depends ia) ?s2 = Returned ?s2"
    proof (rule remove_deps_skips)
      fix D i assume d: "D \<in> set (info_depends ia)" and m: "map_of (installed ?s2) D = Some i"
      from m have da: "D \<noteq> A" and ms: "map_of (installed s) D = Some i"
        by (auto simp: AList.delete_conv' split: if_splits)
      from h d ms da have "truthy (info_explicit i)
          \<or> (\<exists>(C, ic) \<in> set (installed s). C \<noteq> A \<and> D \<in> set (info_depends ic))" by blast
      then show "truthy (info_explicit i) \<or> direct_reverse_dependencies (installed ?s2) D \<noteq> []"
      proof
        assume "truthy (info_explicit i)" then show ?thesis by simp
      next
        assume "\<exists>(C, ic) \<in> set (installed s). C \<noteq> A \<and> D \<in> set (info_depends ic)"
        then obtain C ic where "(C, ic) \<in> set (installed ?s2)" "D \<in> set (info_depends ic)"
          by (auto simp: AList.delete_eq)
        from reverse_dependencies_nonempty[OF this] show ?thesis by simp
      qed
    qed
    with r have "s' = ?s2" by simp
    then show ?thesis by simp
  qed
  show ?thesis
    using gone casc expl need only by (simp only: remove_deps_step) blast
qed

theorem cascade_boundary_witness:
  "\<not> has_key ([] :: installation_state) ''a'' \<and> \<not> has_key ([] :: installation_state) ''b''
   \<and> map_of [(''b'', example_info True [[''lib'', ''b'']] [])] ''b''
       = Some (example_info True [[''lib'', ''b'']] [])
   \<and> map_of [(''b'', example_info False [[''lib'', ''b'']] []), (''c'', example_info True [] [''b''])] ''b''
       = Some (example_info False [[''lib'', ''b'']] [])
   \<and> [(''b'', example_info True [[''lib'', ''b'']] [])]
       = AList.delete ''a'' (installed (cascade_state True []))"
proof -
  let ?ia = "example_info True [[''bin'', ''a'']] [''b'']"
  have a: "map_of (installed (cascade_state e others)) ''a'' = Some ?ia" for e others
    by (simp add: cascade_state_def empty_state_def)
  have b: "map_of (installed (cascade_state e others)) ''b'' = Some (example_info e [[''lib'', ''b'']] [])"
    for e others
    by (simp add: cascade_state_def empty_state_def)
  have d: "''b'' \<in> set (info_depends ?ia)" and n: "''b'' \<noteq> ''a''"
    by (simp_all add: example_info_def)
  have 1: "\<not> has_key ([] :: installation_state) ''a'' \<and> \<not> has_key ([] :: installation_state) ''b''"
    using cascade_boundary[OF remove_cascade_both a d n b, THEN conjunct2]
    by (simp add: cascade_state_def example_defs)
  have 2: "map_of [(''b'', example_info True [[''lib'', ''b'']] [])] ''b''
       = Some (example_info True [[''lib'', ''b'']] [])
     \<and> [(''b'', example_info True [[''lib'', ''b'']] [])]
       = AList.delete ''a'' (installed (cascade_state True []))"
    using cascade_boundary[OF remove_cascade_explicit a d n b, THEN conjunct2]
    by (simp add: cascade_state_def example_defs)
  have 3: "map_of [(''b'', example_info False [[''lib'', ''b'']] []), (''c'', example_info True [] [''b''])] ''b''
       = Some (example_info False [[''lib'', ''b'']] [])"
    using cascade_boundary[OF remove_cascade_needed a d n b, THEN conjunct2]
    by (simp add: cascade_state_def example_defs)
  from 1 2 3 show ?thesis by blast
qed

section \<open>An install command whose names do not resolve\<close>











section \<open>What a removal deletes\<close>


























end
